theory Spec2Isabelle
  imports Complex_Main "HOL-Library.Sublist"
begin

section \<open>String primitives of the platform\<close>

text \<open>
  A JavaScript string is modelled by the list of the bytes of its UTF-8 encoding
  (a surrogate that stands alone by the three bytes of the same scheme).  The
  patterns that the program searches for are ASCII, and an ASCII pattern occurs in
  the bytes exactly where it occurs in the string.  A character outside ASCII is
  therefore several bytes: U+00A0 is \<open>0xC2 0xA0\<close>.  The functions below are the string
  methods that \<open>trafficService.ts\<close> calls, with the semantics of the language
  standard.
\<close>

definition startsWith :: "string \<Rightarrow> string \<Rightarrow> bool" where
  \<comment> \<open>\<open>s.startsWith(p)\<close>\<close>
  "startsWith s p = prefix p s"

fun includes_str :: "string \<Rightarrow> string \<Rightarrow> bool" where
  \<comment> \<open>\<open>s.includes(p)\<close>: \<open>p\<close> occurs somewhere in \<open>s\<close>\<close>
  "includes_str [] p = (p = [])"
| "includes_str (c # cs) p = (prefix p (c # cs) \<or> includes_str cs p)"

fun replace :: "string \<Rightarrow> string \<Rightarrow> string \<Rightarrow> string" where
  \<comment> \<open>\<open>s.replace(p, r)\<close> with a string pattern: only the first occurrence is
      rewritten (the replacement strings of the program contain no \<open>$\<close>)\<close>
  "replace [] p r = (if p = [] then r else [])"
| "replace (c # cs) p r =
     (if prefix p (c # cs) then r @ drop (length p) (c # cs) else c # replace cs p r)"

definition isDigit :: "char \<Rightarrow> bool" where
  "isDigit c = (c \<in> set ''0123456789'')"

definition digitsDotJpg :: "string \<Rightarrow> bool" where
  \<comment> \<open>the regular expression \<open>/^\d+\.jpg$/\<close>\<close>
  "digitsDotJpg s =
     (let n = length s - 4
      in 4 < length s \<and> drop n s = ''.jpg'' \<and> list_all isDigit (take n s))"

definition seqLen :: "char \<Rightarrow> nat" where
  \<comment> \<open>the number of bytes of the character that a byte starts\<close>
  "seqLen c =
     (let n = (of_char c :: nat)
      in if n < 0xC0 then 1 else if n < 0xE0 then 2 else if n < 0xF0 then 3 else 4)"

fun utf8Chars :: "string \<Rightarrow> string list" where
  \<comment> \<open>the characters of a string, each with its bytes\<close>
  "utf8Chars [] = []"
| "utf8Chars (c # cs) =
     (c # take (seqLen c - 1) cs) # utf8Chars (drop (seqLen c - 1) cs)"

definition whiteSpace :: "string list" where
  \<comment> \<open>the white space and line terminators of the language: U+0009 to U+000D,
      U+0020, U+00A0, U+1680, U+2000 to U+200A, U+2028, U+2029, U+202F, U+205F,
      U+3000 and U+FEFF\<close>
  "whiteSpace =
     [[CHR 0x09], [CHR 0x0A], [CHR 0x0B], [CHR 0x0C], [CHR 0x0D], [CHR 0x20],
      [CHR 0xC2, CHR 0xA0],
      [CHR 0xE1, CHR 0x9A, CHR 0x80],
      [CHR 0xE2, CHR 0x80, CHR 0x80], [CHR 0xE2, CHR 0x80, CHR 0x81],
      [CHR 0xE2, CHR 0x80, CHR 0x82], [CHR 0xE2, CHR 0x80, CHR 0x83],
      [CHR 0xE2, CHR 0x80, CHR 0x84], [CHR 0xE2, CHR 0x80, CHR 0x85],
      [CHR 0xE2, CHR 0x80, CHR 0x86], [CHR 0xE2, CHR 0x80, CHR 0x87],
      [CHR 0xE2, CHR 0x80, CHR 0x88], [CHR 0xE2, CHR 0x80, CHR 0x89],
      [CHR 0xE2, CHR 0x80, CHR 0x8A],
      [CHR 0xE2, CHR 0x80, CHR 0xA8], [CHR 0xE2, CHR 0x80, CHR 0xA9],
      [CHR 0xE2, CHR 0x80, CHR 0xAF],
      [CHR 0xE2, CHR 0x81, CHR 0x9F],
      [CHR 0xE3, CHR 0x80, CHR 0x80],
      [CHR 0xEF, CHR 0xBB, CHR 0xBF]]"

definition isSpace :: "string \<Rightarrow> bool" where
  \<comment> \<open>whether a character, given by its bytes, is one that \<open>trim\<close> strips\<close>
  "isSpace c = (c \<in> set whiteSpace)"

definition trim :: "string \<Rightarrow> string" where
  \<comment> \<open>\<open>s.trim()\<close>\<close>
  "trim s = concat (rev (dropWhile isSpace (rev (dropWhile isSpace (utf8Chars s)))))"

definition surrogate :: "nat \<Rightarrow> string" where
  \<comment> \<open>the three bytes of a surrogate code unit\<close>
  "surrogate u =
     [char_of (0xE0 + u div 4096), char_of (0x80 + u div 64 mod 64), char_of (0x80 + u mod 64)]"

definition codeUnitsOf :: "string \<Rightarrow> string list" where
  \<comment> \<open>the UTF-16 code units of one character: a character of four bytes lies
      outside the basic plane and is a pair of surrogates\<close>
  "codeUnitsOf c =
     (case map of_char c of
        [b0, b1, b2, b3] \<Rightarrow>
          (let v = (b0 mod 8) * 262144 + (b1 mod 64) * 4096 + (b2 mod 64) * 64 + b3 mod 64
                   - 65536
           in [surrogate (0xD800 + v div 1024), surrogate (0xDC00 + v mod 1024)])
      | _ \<Rightarrow> [c])"

definition codeUnits :: "string \<Rightarrow> string list" where
  \<comment> \<open>the code units that indexing a string counts\<close>
  "codeUnits s = concat (map codeUnitsOf (utf8Chars s))"

definition orElse :: "string \<Rightarrow> string \<Rightarrow> string" where
  \<comment> \<open>\<open>a || b\<close> on strings: the empty string is falsy\<close>
  "orElse a b = (if a = [] then b else a)"

section \<open>Image URL normalisation\<close>

definition BASE_TRAFFIC_URL :: string where
  "BASE_TRAFFIC_URL = ''https://trafficnz.info''"

definition normalizeImageUrl :: "string \<Rightarrow> string" where
  "normalizeImageUrl url =
     (if url = [] then []
      else
        let absoluteUrl =
              (if startsWith url ''http'' \<and> \<not> includes_str url ''trafficnz.info''
                 then replace url ''http://'' ''https://''
               else if startsWith url ''/''
                 then BASE_TRAFFIC_URL @ url
               else if digitsDotJpg url
                 then BASE_TRAFFIC_URL @ ''/camera/images/'' @ url
               else if \<not> startsWith url ''http''
                 then BASE_TRAFFIC_URL @ ''/camera/images/'' @ url
               else url)
        in replace
             (replace absoluteUrl ''http://www.trafficnz.info'' ''https://www.trafficnz.info'')
             ''http://trafficnz.info'' ''https://www.trafficnz.info'')"

section \<open>JavaScript values\<close>

text \<open>
  The upstream payloads are decoded JSON, accessed without any type check, so the
  model keeps them as untyped values.  Numbers are IEEE doubles in the program; here
  a finite number is a real, and the three special values are explicit.
\<close>

datatype jsnum = NaN | PosInfinity | NegInfinity | Finite real

text \<open>
  An object is the list of its own properties, as \<open>JSON.parse\<close> creates them (the
  keys are distinct); no value of a payload is callable.
\<close>

datatype jsval =
    Undefined
  | Null
  | Bool bool
  | Num jsnum
  | Str string
  | Arr "jsval list"
  | Obj "(string \<times> jsval) list"

datatype error = TypeError | SyntaxError | NetworkError | AbortError

definition truthyNum :: "jsnum \<Rightarrow> bool" where
  "truthyNum n = (n \<noteq> NaN \<and> n \<noteq> Finite 0)"

fun truthy :: "jsval \<Rightarrow> bool" where
  "truthy Undefined = False"
| "truthy Null = False"
| "truthy (Bool b) = b"
| "truthy (Num n) = truthyNum n"
| "truthy (Str s) = (s \<noteq> [])"
| "truthy (Arr xs) = True"
| "truthy (Obj kvs) = True"

definition orJs :: "jsval \<Rightarrow> jsval \<Rightarrow> jsval" where
  \<comment> \<open>\<open>a || b\<close>\<close>
  "orJs a b = (if truthy a then a else b)"

definition nullish :: "jsval \<Rightarrow> bool" where
  "nullish v = (v = Undefined \<or> v = Null)"

fun get :: "jsval \<Rightarrow> string \<Rightarrow> jsval" where
  \<comment> \<open>\<open>v.k\<close> for a value \<open>v\<close> that is neither \<open>undefined\<close> nor \<open>null\<close>, and a key
      \<open>k\<close> that no prototype defines (true of every key the program reads)\<close>
  "get (Obj kvs) k = (case map_of kvs k of None \<Rightarrow> Undefined | Some v \<Rightarrow> v)"
| "get v k = Undefined"

definition property :: "jsval \<Rightarrow> string \<Rightarrow> error + jsval" where
  \<comment> \<open>\<open>v.k\<close>: reading a property of \<open>undefined\<close> or \<open>null\<close> throws\<close>
  "property v k = (if nullish v then Inl TypeError else Inr (get v k))"

definition digitChar :: "nat \<Rightarrow> char" where
  "digitChar d = ''0123456789'' ! d"

fun decimal :: "nat \<Rightarrow> string" where
  "decimal n = (if n < 10 then [digitChar n] else decimal (n div 10) @ [digitChar (n mod 10)])"

declare decimal.simps [simp del]

fun at_index :: "jsval \<Rightarrow> nat \<Rightarrow> jsval" where
  \<comment> \<open>\<open>v[i]\<close> for a value \<open>v\<close> that is neither \<open>undefined\<close> nor \<open>null\<close>\<close>
  "at_index (Arr xs) i = (if i < length xs then xs ! i else Undefined)"
| "at_index (Str s) i =
     (if i < length (codeUnits s) then Str (codeUnits s ! i) else Undefined)"
| "at_index (Obj kvs) i = get (Obj kvs) (decimal i)"
| "at_index v i = Undefined"

definition bindE :: "error + 'a \<Rightarrow> ('a \<Rightarrow> error + 'b) \<Rightarrow> error + 'b" where
  "bindE m f = (case m of Inl e \<Rightarrow> Inl e | Inr x \<Rightarrow> f x)"

fun joinWith :: "string \<Rightarrow> string list \<Rightarrow> string" where
  "joinWith sep [] = []"
| "joinWith sep [x] = x"
| "joinWith sep (x # y # ys) = x @ sep @ joinWith sep (y # ys)"

fun toStringJs :: "(jsnum \<Rightarrow> string) \<Rightarrow> jsval \<Rightarrow> string" where
  \<comment> \<open>the string conversion of a template literal, for a value that is
      \<open>convertible\<close>; the first argument is the platform's conversion of numbers\<close>
  "toStringJs nf Undefined = ''undefined''"
| "toStringJs nf Null = ''null''"
| "toStringJs nf (Bool b) = (if b then ''true'' else ''false'')"
| "toStringJs nf (Num n) = nf n"
| "toStringJs nf (Str s) = s"
| "toStringJs nf (Arr xs) =
     joinWith '','' (map (\<lambda>x. if nullish x then [] else toStringJs nf x) xs)"
| "toStringJs nf (Obj kvs) = ''[object Object]''"

fun convertible :: "jsval \<Rightarrow> bool" where
  \<comment> \<open>whether the conversion to a primitive succeeds, in a template literal or in
      \<open>new Date(v)\<close>: an own property \<open>toString\<close> of a decoded object hides the
      inherited method and is not callable, and an array converts its elements\<close>
  "convertible (Obj kvs) = (map_of kvs ''toString'' = None)"
| "convertible (Arr xs) = list_all convertible xs"
| "convertible v = True"

section \<open>Markup documents\<close>

text \<open>
  A parsed document is the tree of its element and text nodes.  The two selector
  shapes the parser uses are a tag name (\<open>"latitude"\<close>) and a child combinator
  (\<open>"location > latitude"\<close>).
\<close>

datatype xml = Text string | Elem string "xml list"

datatype selector = Tag string | ChildOf string string

fun subtree :: "string \<Rightarrow> xml \<Rightarrow> (string \<times> xml) list" where
  \<comment> \<open>the elements of a subtree in document order, each with its parent's tag\<close>
  "subtree p (Text s) = []"
| "subtree p (Elem t cs) = (p, Elem t cs) # concat (map (subtree t) cs)"

fun descendants :: "xml \<Rightarrow> (string \<times> xml) list" where
  "descendants (Text s) = []"
| "descendants (Elem t cs) = concat (map (subtree t) cs)"

fun tagName :: "xml \<Rightarrow> string" where
  "tagName (Text s) = []"
| "tagName (Elem t cs) = t"

fun textContent :: "xml \<Rightarrow> string" where
  "textContent (Text s) = s"
| "textContent (Elem t cs) = concat (map textContent cs)"

fun matches :: "selector \<Rightarrow> string \<times> xml \<Rightarrow> bool" where
  "matches (Tag n) (p, e) = (tagName e = n)"
| "matches (ChildOf q n) (p, e) = (tagName e = n \<and> p = q)"

definition querySelector :: "xml \<Rightarrow> selector \<Rightarrow> xml option" where
  \<comment> \<open>\<open>node.querySelector(s)\<close>: the first matching descendant\<close>
  "querySelector node s = map_option snd (find (matches s) (descendants node))"

definition querySelectorAll :: "xml \<Rightarrow> selector list \<Rightarrow> xml list" where
  \<comment> \<open>\<open>document.querySelectorAll("a, b")\<close>: the root element's parent is the
      document, which has no tag\<close>
  "querySelectorAll doc ss =
     map snd (filter (\<lambda>e. list_ex (\<lambda>s. matches s e) ss) (subtree [] doc))"

definition getElementsByTagName :: "xml \<Rightarrow> string \<Rightarrow> xml list" where
  "getElementsByTagName doc n = map snd (filter (matches (Tag n)) (subtree [] doc))"

section \<open>Camera records and the platform\<close>

text \<open>
  Modelled from the spec: the declarations of \<open>Severity\<close> and \<open>Trend\<close> live in
  \<open>types.ts\<close>, which is not part of the sources at hand.  The specification gives
  severity as the ordered categories low, medium, high, critical and trend as
  improving, stable, escalating.
\<close>

datatype Severity = Low | Medium | High | Critical

datatype Trend = Improving | Stable | Escalating

text \<open>
  A \<open>TrafficCamera\<close> as it exists at run time.  The fields that the authoritative
  parser copies from the payload without conversion hold untyped values.
\<close>

record TrafficCamera =
  cam_id :: string
  name :: jsval
  description :: jsval
  imageUrl :: string
  region :: jsval
  latitude :: jsval
  longitude :: jsval
  direction :: jsval
  journeyLegs :: "string list"
  cam_type :: string
  status :: string
  source :: string
  severity :: Severity
  trend :: Trend
  confidence :: int
  lastUpdate :: string

datatype Response =
  Response (resp_ok: bool) (resp_status: nat)
           (resp_json: "error + jsval") (resp_text: "error + string")

text \<open>
  Everything the service obtains from its surroundings during one synchronisation
  pass: the successive values of \<open>Math.random()\<close> (each in \<open>[0, 1)\<close>), the number
  and date functions of the language, the markup parser of the browser, and the
  outcome of each request.  A request either rejects (network failure, or the abort
  fired by the twelve second timer of \<open>fetchWithTimeout\<close>) or resolves to a
  response, whose \<open>json()\<close> and \<open>text()\<close> readers may reject in turn.  Every awaited
  promise is taken to settle.
\<close>

record platform =
  random :: "nat \<Rightarrow> real"
  parseFloat :: "string \<Rightarrow> jsnum"
  numberToString :: "jsnum \<Rightarrow> string"
  toString36 :: "real \<Rightarrow> string"
  parseFromString :: "string \<Rightarrow> xml"
  dateNow :: real
  toLocaleTimeString :: "jsval \<Rightarrow> string"
  moduleLoadTime :: string
  fetch :: "string \<Rightarrow> error + Response"

definition unitDraws :: "platform \<Rightarrow> bool" where
  \<comment> \<open>the contract of \<open>Math.random\<close>\<close>
  "unitDraws env = (\<forall>i. 0 \<le> random env i \<and> random env i < 1)"

definition pick :: "'a list \<Rightarrow> real \<Rightarrow> 'a" where
  \<comment> \<open>\<open>xs[Math.floor(r * xs.length)]\<close>\<close>
  "pick xs r = xs ! nat \<lfloor>r * real (length xs)\<rfloor>"

definition severities :: "Severity list" where
  "severities = [Low, Low, Low, Medium, Medium, High]"

definition trends :: "Trend list" where
  "trends = [Improving, Stable, Stable, Escalating]"

definition FALLBACK_CAMERAS :: "platform \<Rightarrow> TrafficCamera list" where
  "FALLBACK_CAMERAS env =
     [\<lparr>cam_id = ''FB-AKL-01'',
       name = Str ''SH1: Oteha Valley Rd'',
       description = Str ''Northbound coverage - Backup Uplink'',
       imageUrl = ''https://www.trafficnz.info/camera/images/20.jpg'',
       region = Str ''Auckland'',
       latitude = Num (Finite (- 36.723)),
       longitude = Num (Finite 174.706),
       direction = Str ''North'',
       journeyLegs = [''Auckland - North''],
       cam_type = ''feed'',
       status = ''Operational'',
       source = ''Static Matrix Fallback'',
       severity = Low,
       trend = Stable,
       confidence = 99,
       lastUpdate = moduleLoadTime env\<rparr>,
      \<lparr>cam_id = ''FB-AKL-02'',
       name = Str ''SH1: Harbour Bridge'',
       description = Str ''Clip-on lanes - Backup Uplink'',
       imageUrl = ''https://www.trafficnz.info/camera/images/24.jpg'',
       region = Str ''Auckland'',
       latitude = Num (Finite (- 36.83)),
       longitude = Num (Finite 174.75),
       direction = Str ''South'',
       journeyLegs = [''Auckland - Central''],
       cam_type = ''feed'',
       status = ''Operational'',
       source = ''Static Matrix Fallback'',
       severity = Low,
       trend = Stable,
       confidence = 99,
       lastUpdate = moduleLoadTime env\<rparr>,
      \<lparr>cam_id = ''FB-WLG-01'',
       name = Str ''SH1: Terrace Tunnel'',
       description = Str ''Tunnel approach - Backup Uplink'',
       imageUrl = ''https://www.trafficnz.info/camera/images/423.jpg'',
       region = Str ''Wellington'',
       latitude = Num (Finite (- 41.285)),
       longitude = Num (Finite 174.773),
       direction = Str ''North'',
       journeyLegs = [''Wellington - City''],
       cam_type = ''feed'',
       status = ''Operational'',
       source = ''Static Matrix Fallback'',
       severity = Low,
       trend = Stable,
       confidence = 99,
       lastUpdate = moduleLoadTime env\<rparr>]"

section \<open>The authoritative parser\<close>

definition normalizeImageUrlAny :: "jsval \<Rightarrow> error + string" where
  \<comment> \<open>\<open>normalizeImageUrl\<close> as the authoritative parser calls it, on an untyped
      argument: a falsy value gives the empty string, and a truthy value that is not a
      string has no \<open>startsWith\<close> method\<close>
  "normalizeImageUrlAny v =
     (if \<not> truthy v then Inr []
      else case v of Str s \<Rightarrow> Inr (normalizeImageUrl s) | _ \<Rightarrow> Inl TypeError)"

definition arcFeature :: "platform \<Rightarrow> nat \<Rightarrow> jsval \<Rightarrow> (error + TrafficCamera) \<times> nat" where
  \<comment> \<open>the callback of \<open>features.map\<close>; the number is the count of random draws
      made so far.  The fields are evaluated in the order of the object literal: the
      identifier and the image URL can throw before the draws, the date after them\<close>
  "arcFeature env k feature =
     (if nullish feature then (Inl TypeError, k)
      else
        let props = get feature ''properties'';
            geometry = get feature ''geometry''
        in if nullish geometry then (Inl TypeError, k)
        else
          let coords = get geometry ''coordinates''
          in if nullish props then (Inl TypeError, k)
          else
            let status = (if get props ''offline'' = Str ''true''
                          then ''Offline'' else ''Operational'');
                ident = orJs (get props ''id'') (get props ''ObjectId'');
                updated = orJs (get props ''updatedate'') (Num (Finite (dateNow env)))
            in if \<not> convertible ident then (Inl TypeError, k)
            else
              case normalizeImageUrlAny
                     (orJs (get props ''imageurl'') (get props ''thumburl'')) of
                Inl e \<Rightarrow> (Inl e, k)
              | Inr img \<Rightarrow>
                  if nullish coords then (Inl TypeError, k)
                  else if \<not> convertible updated then (Inl TypeError, k + 3)
                  else
                    (Inr \<lparr>cam_id = ''arcgis-'' @ toStringJs (numberToString env) ident,
                          name = orJs (get props ''name'') (Str ''Surveillance Node''),
                          description = orJs (get props ''description'')
                                          (Str ''Official NZTA Live Feed''),
                          imageUrl = img,
                          region = orJs (get props ''region'') (Str ''NZ Sector''),
                          latitude = at_index coords 1,
                          longitude = at_index coords 0,
                          direction = orJs (get props ''direction'') (Str ''N/A''),
                          journeyLegs = [],
                          cam_type = ''feed'',
                          status = status,
                          source = ''NZTA ArcGIS (Authoritative)'',
                          severity = pick severities (random env k),
                          trend = pick trends (random env (k + 1)),
                          confidence = 95 + \<lfloor>random env (k + 2) * 5\<rfloor>,
                          lastUpdate = toLocaleTimeString env updated\<rparr>,
                     k + 3))"

fun mapFeatures ::
  "platform \<Rightarrow> nat \<Rightarrow> jsval list \<Rightarrow> (error + TrafficCamera list) \<times> nat" where
  "mapFeatures env k [] = (Inr [], k)"
| "mapFeatures env k (f # fs) =
     (case arcFeature env k f of
        (Inl e, k') \<Rightarrow> (Inl e, k')
      | (Inr c, k') \<Rightarrow>
          (case mapFeatures env k' fs of
             (Inl e, k'') \<Rightarrow> (Inl e, k'')
           | (Inr cs, k'') \<Rightarrow> (Inr (c # cs), k'')))"

definition parseArcGisJson ::
  "platform \<Rightarrow> nat \<Rightarrow> jsval \<Rightarrow> (error + TrafficCamera list) \<times> nat" where
  "parseArcGisJson env k geoJson =
     (if \<not> truthy geoJson \<or> \<not> truthy (get geoJson ''features'') then (Inr [], k)
      else case get geoJson ''features'' of
             Arr fs \<Rightarrow> mapFeatures env k fs
           | _ \<Rightarrow> (Inl TypeError, k))"

section \<open>The legacy markup parser\<close>

definition getVal :: "xml \<Rightarrow> selector \<Rightarrow> string" where
  "getVal node s =
     (case querySelector node s of None \<Rightarrow> [] | Some e \<Rightarrow> orElse (trim (textContent e)) [])"

definition substr :: "string \<Rightarrow> nat \<Rightarrow> nat \<Rightarrow> string" where
  \<comment> \<open>\<open>s.substr(start, length)\<close>\<close>
  "substr s start len = take len (drop start s)"

definition cameraNode :: "platform \<Rightarrow> nat \<Rightarrow> xml \<Rightarrow> TrafficCamera option \<times> nat" where
  \<comment> \<open>the body of \<open>cameraNodes.forEach\<close>: the record pushed for a node, if any\<close>
  "cameraNode env k node =
     (let lat = parseFloat env
                  (orElse (getVal node (ChildOf ''location'' ''latitude''))
                     (orElse (getVal node (Tag ''latitude'')) ''0''));
          lng = parseFloat env
                  (orElse (getVal node (ChildOf ''location'' ''longitude''))
                     (orElse (getVal node (Tag ''longitude'')) ''0''))
      in if truthyNum lat \<and> truthyNum lng then
           let status = orElse (getVal node (Tag ''status'')) ''Operational'';
               k1 = (if getVal node (Tag ''id'') \<noteq> [] then k else k + 1);
               k2 = (if includes_str status ''Construction'' then k1 else k1 + 1)
           in (Some \<lparr>cam_id = (if getVal node (Tag ''id'') \<noteq> [] then getVal node (Tag ''id'')
                                 else ''node-'' @ substr (toString36 env (random env k)) 2 5),
                      name = Str (orElse (getVal node (Tag ''name'')) ''Surveillance Node''),
                      description =
                        Str (orElse (getVal node (Tag ''description'')) ''Live matrix uplink''),
                      imageUrl = normalizeImageUrl
                                   (orElse (getVal node (Tag ''imageUrl''))
                                      (getVal node (Tag ''url''))),
                      region = Str (orElse (getVal node (Tag ''region'')) ''NZ Sector''),
                      latitude = Num lat,
                      longitude = Num lng,
                      direction = Str (orElse (getVal node (Tag ''direction'')) ''N/A''),
                      journeyLegs = [],
                      cam_type = ''feed'',
                      status = status,
                      source = ''TrafficNZ REST v4'',
                      severity = (if includes_str status ''Construction'' then Medium
                                  else pick severities (random env k1)),
                      trend = pick trends (random env k2),
                      confidence = 80 + \<lfloor>random env (k2 + 1) * 19\<rfloor>,
                      lastUpdate = toLocaleTimeString env (Num (Finite (dateNow env)))\<rparr>,
               k2 + 2)
         else (None, k))"

fun forEachNode ::
  "platform \<Rightarrow> nat \<Rightarrow> xml list \<Rightarrow> TrafficCamera list \<Rightarrow> TrafficCamera list \<times> nat" where
  \<comment> \<open>\<open>forEach\<close> over the camera nodes, pushing onto \<open>parsedCameras\<close>\<close>
  "forEachNode env k [] parsedCameras = (parsedCameras, k)"
| "forEachNode env k (node # nodes) parsedCameras =
     (case cameraNode env k node of
        (None, k') \<Rightarrow> forEachNode env k' nodes parsedCameras
      | (Some c, k') \<Rightarrow> forEachNode env k' nodes (parsedCameras @ [c]))"

definition parseTrafficXml :: "platform \<Rightarrow> nat \<Rightarrow> string \<Rightarrow> TrafficCamera list \<times> nat" where
  "parseTrafficXml env k xmlString =
     (let xmlDoc = parseFromString env xmlString
      in if length (getElementsByTagName xmlDoc ''parsererror'') > 0 then ([], k)
         else forEachNode env k
                (querySelectorAll xmlDoc [Tag ''trafficCamera'', Tag ''camera'']) [])"

section \<open>The orchestrator\<close>

definition ARCGIS_ENDPOINT :: string where
  "ARCGIS_ENDPOINT = ''https://services.arcgis.com/XTtANUDT8Va4DLwI/ArcGIS/rest/services/LiveCamerasNZTA_Public_View/FeatureServer/0/query?where=1%3D1&outFields=*&f=geojson''"

definition XML_ENDPOINT :: string where
  "XML_ENDPOINT = ''https://trafficnz.info/service/traffic/rest/4/cameras/all''"

datatype ProxyType = JsonProxy | TextProxy

record ProxyConfig =
  proxy_url :: string
  proxy_type :: ProxyType

definition PROXIES :: "ProxyConfig list" where
  "PROXIES =
     [\<lparr>proxy_url = ''https://api.allorigins.win/get?url='', proxy_type = JsonProxy\<rparr>,
      \<lparr>proxy_url = ''https://corsproxy.io/?'', proxy_type = TextProxy\<rparr>,
      \<lparr>proxy_url = ''https://api.codetabs.com/v1/proxy?url='', proxy_type = TextProxy\<rparr>,
      \<lparr>proxy_url = ''https://thingproxy.freeboard.io/fetch/'', proxy_type = TextProxy\<rparr>]"

definition unreserved :: "char \<Rightarrow> bool" where
  "unreserved c =
     (c \<in> set ''ABCDEFGHIJKLMNOPQRSTUVWXYZabcdefghijklmnopqrstuvwxyz0123456789-_.!~*'()'')"

definition hexDigit :: "nat \<Rightarrow> char" where
  "hexDigit d = ''0123456789ABCDEF'' ! d"

definition encodeURIComponent :: "string \<Rightarrow> string" where
  \<comment> \<open>percent-encoding of every character outside the unreserved set\<close>
  "encodeURIComponent s =
     concat (map (\<lambda>c. if unreserved c then [c]
                       else [CHR ''%'', hexDigit (of_char c div 16), hexDigit (of_char c mod 16)]) s)"

definition fetchWithTimeout :: "platform \<Rightarrow> string \<Rightarrow> error + Response" where
  \<comment> \<open>the request settles either way: the abort of the timer is one of the
      rejections recorded in the platform\<close>
  "fetchWithTimeout env target = fetch env target"

datatype attempt =
    BadStatus nat
  | InvalidBitstream
  | ZeroRecords
  | Synced "TrafficCamera list"

definition targetUrl :: "ProxyConfig \<Rightarrow> string" where
  "targetUrl proxy =
     (if includes_str (proxy_url proxy) ''corsproxy.io''
      then proxy_url proxy @ XML_ENDPOINT
      else proxy_url proxy @ encodeURIComponent XML_ENDPOINT)"

definition extractBody :: "ProxyConfig \<Rightarrow> Response \<Rightarrow> error + jsval" where
  \<comment> \<open>the value assigned to \<open>xmlText\<close>: the \<open>contents\<close> field of the envelope of a
      JSON relay, the raw text of any other relay\<close>
  "extractBody proxy response =
     (if proxy_type proxy = JsonProxy
      then bindE (resp_json response) (\<lambda>data. property data ''contents'')
      else bindE (resp_text response) (\<lambda>t. Inr (Str t)))"

definition relayBody :: "platform \<Rightarrow> nat \<Rightarrow> ProxyConfig \<Rightarrow> (error + attempt) \<times> nat" where
  \<comment> \<open>the \<open>try\<close> block of one iteration over \<open>PROXIES\<close>: \<open>Inl\<close> is an exception that
      reaches the \<open>catch\<close>, \<open>Synced\<close> is the \<open>return\<close>, the other results are the two
      \<open>continue\<close> statements and the fall-through after an empty parse\<close>
  "relayBody env k proxy =
     (case fetchWithTimeout env (targetUrl proxy) of
        Inl e \<Rightarrow> (Inl e, k)
      | Inr response \<Rightarrow>
          (if \<not> resp_ok response then (Inr (BadStatus (resp_status response)), k)
           else
             (case extractBody proxy response of
                Inl e \<Rightarrow> (Inl e, k)
              | Inr xmlText \<Rightarrow>
                  (if \<not> truthy xmlText then (Inr InvalidBitstream, k)
                   else
                     (case xmlText of
                        Str s \<Rightarrow>
                          (if startsWith (trim s) ''<!DOCTYPE html'' \<or>
                              startsWith (trim s) ''<html''
                           then (Inr InvalidBitstream, k)
                           else
                             (case parseTrafficXml env k s of
                                (parsed, k') \<Rightarrow>
                                  (if length parsed > 0 then (Inr (Synced parsed), k')
                                   else (Inr ZeroRecords, k'))))
                      | _ \<Rightarrow> (Inl TypeError, k))))))"

fun relayLoop :: "platform \<Rightarrow> nat \<Rightarrow> ProxyConfig list \<Rightarrow> TrafficCamera list" where
  \<comment> \<open>the loop over the proxy pool, followed by the emergency fallback\<close>
  "relayLoop env k [] = FALLBACK_CAMERAS env"
| "relayLoop env k (proxy # rest) =
     (case relayBody env k proxy of
        (Inr (Synced parsed), k') \<Rightarrow> parsed
      | (_, k') \<Rightarrow> relayLoop env k' rest)"

definition arcGisBody ::
  "platform \<Rightarrow> nat \<Rightarrow> (error + TrafficCamera list option) \<times> nat" where
  \<comment> \<open>the first \<open>try\<close> block: \<open>Some\<close> is its \<open>return\<close>, \<open>None\<close> its fall-through\<close>
  "arcGisBody env k =
     (case fetchWithTimeout env ARCGIS_ENDPOINT of
        Inl e \<Rightarrow> (Inl e, k)
      | Inr arcGisRes \<Rightarrow>
          if resp_ok arcGisRes then
            (case resp_json arcGisRes of
               Inl e \<Rightarrow> (Inl e, k)
             | Inr data \<Rightarrow>
                 (case parseArcGisJson env k data of
                    (Inl e, k') \<Rightarrow> (Inl e, k')
                  | (Inr parsed, k') \<Rightarrow>
                      if length parsed > 0 then (Inr (Some parsed), k')
                      else (Inr None, k')))
          else (Inr None, k))"

definition fetchLiveCameras :: "platform \<Rightarrow> TrafficCamera list" where
  \<comment> \<open>both \<open>catch\<close> clauses only log, so an exception of a \<open>try\<close> block continues
      like its fall-through\<close>
  "fetchLiveCameras env =
     (case arcGisBody env 0 of
        (Inr (Some parsed), k) \<Rightarrow> parsed
      | (_, k) \<Rightarrow> relayLoop env k PROXIES)"

section \<open>The coordinate normaliser of the map view\<close>

definition mercatorToLatLng :: "real \<Rightarrow> real \<Rightarrow> real \<times> real" where
  \<comment> \<open>returns \<open>(lat, lng)\<close>; the doubles of the program are taken as reals\<close>
  "mercatorToLatLng x y =
     (let R = 6378137;
          lng = (x / R) * (180 / pi);
          lat = (2 * arctan (exp (y / R)) - pi / 2) * (180 / pi)
      in (lat, lng))"

definition latLngToMercator :: "real \<Rightarrow> real \<Rightarrow> real \<times> real" where
  \<comment> \<open>the forward spherical Mercator projection named by the specification (it has
      no counterpart in the sources): returns \<open>(x, y)\<close> in metres\<close>
  "latLngToMercator lat lng =
     (let R = 6378137
      in (R * (lng * pi / 180), R * ln (tan (pi / 4 + (lat * pi / 180) / 2))))"

section \<open>Example surroundings\<close>

text \<open>
  Concrete platforms on which the statements below are exercised.  The number and
  date functions are tabulated on the arguments that occur: \<open>parseFloat\<close> on the
  coordinate strings of the sample document, \<open>toString(36)\<close> on the draw \<open>0.25\<close>
  (whose base 36 expansion is \<open>0.9\<close>).  No example converts a number to decimal
  text, and the clock always reads noon.
\<close>

definition sampleParseFloat :: "string \<Rightarrow> jsnum" where
  "sampleParseFloat s =
     (if s = ''-36.8'' then Finite (- 36.8)
      else if s = ''174.7'' then Finite 174.7
      else if s = ''0'' then Finite 0
      else NaN)"

definition htmlPage :: string where
  "htmlPage = ''<!DOCTYPE html><html><body>502 Bad Gateway</body></html>''"

definition legacyXml :: string where
  "legacyXml = ''<cameras><camera><id>101</id><status>Under Construction</status><imageUrl>20.jpg</imageUrl><location><latitude>-36.8</latitude><longitude>174.7</longitude></location></camera><camera><latitude>-36.8</latitude><longitude>174.7</longitude></camera><camera><latitude>-36.8</latitude><longitude>174.7</longitude></camera><camera><id>7</id></camera></cameras>''"

definition legacyDoc :: xml where
  \<comment> \<open>the document tree of \<open>legacyXml\<close>\<close>
  "legacyDoc =
     Elem ''cameras''
       [Elem ''camera''
          [Elem ''id'' [Text ''101''],
           Elem ''status'' [Text ''Under Construction''],
           Elem ''imageUrl'' [Text ''20.jpg''],
           Elem ''location''
             [Elem ''latitude'' [Text ''-36.8''], Elem ''longitude'' [Text ''174.7'']]],
        Elem ''camera''
          [Elem ''latitude'' [Text ''-36.8''], Elem ''longitude'' [Text ''174.7'']],
        Elem ''camera''
          [Elem ''latitude'' [Text ''-36.8''], Elem ''longitude'' [Text ''174.7'']],
        Elem ''camera'' [Elem ''id'' [Text ''7'']]]"


definition offline :: platform where
  \<comment> \<open>every request rejects\<close>
  "offline =
     \<lparr>random = (\<lambda>i. 1 / 4),
      parseFloat = sampleParseFloat,
      numberToString = (\<lambda>n. []),
      toString36 = (\<lambda>r. if r = 1 / 4 then ''0.9'' else ''0''),
      parseFromString = (\<lambda>s. if s = legacyXml then legacyDoc else Elem ''parsererror'' []),
      dateNow = 0,
      toLocaleTimeString = (\<lambda>v. ''12:00 PM''),
      moduleLoadTime = ''12:00:00 PM'',
      fetch = (\<lambda>u. Inl NetworkError)\<rparr>"

definition relayed :: "string \<Rightarrow> platform" where
  \<comment> \<open>the authoritative endpoint is unreachable and every relay answers with the
      given body, in an envelope and as raw text\<close>
  "relayed body =
     offline\<lparr>fetch :=
       (\<lambda>u. if u = ARCGIS_ENDPOINT then Inl NetworkError
            else Inr (Response True 200 (Inr (Obj [(''contents'', Str body)])) (Inr body)))\<rparr>"

definition authoritative :: "jsval \<Rightarrow> platform" where
  \<comment> \<open>the authoritative endpoint answers with the given decoded payload and every
      relay is unreachable\<close>
  "authoritative geoJson =
     offline\<lparr>fetch :=
       (\<lambda>u. if u = ARCGIS_ENDPOINT then Inr (Response True 200 (Inr geoJson) (Inr []))
            else Inl NetworkError)\<rparr>"

definition feature :: "(string \<times> jsval) list \<Rightarrow> jsval list \<Rightarrow> jsval" where
  \<comment> \<open>a GeoJSON feature with the given properties and point coordinates\<close>
  "feature props coords =
     Obj [(''type'', Str ''Feature''),
          (''properties'', Obj props),
          (''geometry'', Obj [(''type'', Str ''Point''), (''coordinates'', Arr coords)])]"

definition featureCollection :: "jsval list \<Rightarrow> jsval" where
  "featureCollection fs = Obj [(''type'', Str ''FeatureCollection''), (''features'', Arr fs)]"

definition brokenBatch :: jsval where
  \<comment> \<open>a collection whose second feature has no geometry\<close>
  "brokenBatch = featureCollection
     [feature [(''id'', Str ''12'')] [Num (Finite 174.7), Num (Finite (- 36.8))],
      Obj [(''type'', Str ''Feature''), (''properties'', Obj [(''id'', Str ''13'')])]]"

definition constructionNode :: xml where
  \<comment> \<open>the first camera of \<open>legacyDoc\<close>\<close>
  "constructionNode =
     Elem ''camera''
       [Elem ''id'' [Text ''101''],
        Elem ''status'' [Text ''Under Construction''],
        Elem ''imageUrl'' [Text ''20.jpg''],
        Elem ''location''
          [Elem ''latitude'' [Text ''-36.8''], Elem ''longitude'' [Text ''174.7'']]]"

definition plainNode :: xml where
  \<comment> \<open>the second and third camera of \<open>legacyDoc\<close>: no identifier, no status\<close>
  "plainNode =
     Elem ''camera''
       [Elem ''latitude'' [Text ''-36.8''], Elem ''longitude'' [Text ''174.7'']]"

definition zeroBatch :: jsval where
  \<comment> \<open>two features without identifier: one at the origin, one with an empty
      coordinate array\<close>
  "zeroBatch = featureCollection
     [feature [] [Num (Finite 0), Num (Finite 0)], feature [] []]"

section \<open>Strings\<close>

lemma concat_utf8Chars: "concat (utf8Chars s) = s"
  by (induction s rule: utf8Chars.induct) simp_all

section \<open>Coordinate conversion\<close>

lemma mercator_lat:
  fixes lat :: real
  assumes "- 90 < lat" "lat < 90"
  shows "(2 * arctan (exp (ln (tan (pi / 4 + (lat * pi / 180) / 2)))) - pi / 2) * (180 / pi)
         = lat"
proof -
  define th where "th = pi / 4 + (lat * pi / 180) / 2"
  have pos: "0 < th"
  proof -
    have "- 90 * pi < lat * pi"
      using assms(1) pi_gt_zero by (simp only: mult_less_cancel_right_pos)
    then show ?thesis unfolding th_def by linarith
  qed
  have lt: "th < pi / 2"
  proof -
    have "lat * pi < 90 * pi"
      using assms(2) pi_gt_zero by (simp only: mult_less_cancel_right_pos)
    then show ?thesis unfolding th_def by linarith
  qed
  have "0 < tan th" using pos lt by (rule tan_gt_zero)
  then have "exp (ln (tan th)) = tan th" by simp
  moreover have "arctan (tan th) = th" using pos lt by (intro arctan_tan) simp_all
  ultimately have
    "(2 * arctan (exp (ln (tan th))) - pi / 2) * (180 / pi) = (2 * th - pi / 2) * (180 / pi)"
    by simp
  also have "\<dots> = lat" unfolding th_def using pi_neq_zero by (simp add: field_simps)
  finally show ?thesis unfolding th_def .
qed

text \<open>
  C9.  \<open>mercatorToLatLng\<close> inverts the forward spherical Mercator projection of
  radius 6378137 m: a geographic point strictly between the poles, projected forward
  and converted back, is recovered.  With the doubles of the program read as reals
  the recovery is exact, which is the limit of every floating-point tolerance.
\<close>

theorem mercator_roundtrip:
  "- 90 < lat \<Longrightarrow> lat < 90 \<Longrightarrow>
     (case latLngToMercator lat lng of (x, y) \<Rightarrow> mercatorToLatLng x y) = (lat, lng)"
  using mercator_lat [of lat]
  by (simp add: latLngToMercator_def mercatorToLatLng_def Let_def)

theorem mercator_roundtrip_witness:
  "(- 90 :: real) < 45 \<and> (45 :: real) < 90 \<and>
     (case latLngToMercator 45 174 of (x, y) \<Rightarrow> mercatorToLatLng x y) = (45, 174)"
  using mercator_roundtrip [of 45 174] by simp

section \<open>Properties of the orchestrator\<close>

lemma FALLBACK_nonempty: "FALLBACK_CAMERAS env \<noteq> []"
  by (simp add: FALLBACK_CAMERAS_def)

lemma relayBody_Synced:
  "relayBody env k proxy = (Inr (Synced parsed), k') \<Longrightarrow> parsed \<noteq> []"
  by (auto simp: relayBody_def split: sum.splits if_splits jsval.splits prod.splits)

lemma relayLoop_advance:
  "relayBody env k proxy = (r, k') \<Longrightarrow> \<forall>parsed. r \<noteq> Inr (Synced parsed) \<Longrightarrow>
     relayLoop env k (proxy # rest) = relayLoop env k' rest"
  by (auto split: sum.splits attempt.splits)

lemma relayLoop_nonempty: "relayLoop env k ps \<noteq> []"
proof (induction ps arbitrary: k)
  case Nil
  show ?case by (simp add: FALLBACK_nonempty)
next
  case (Cons p ps)
  obtain r k' where body: "relayBody env k p = (r, k')" by (cases "relayBody env k p")
  show ?case
  proof (cases "\<exists>parsed. r = Inr (Synced parsed)")
    case True
    then obtain parsed where r: "r = Inr (Synced parsed)" by blast
    with body have "parsed \<noteq> []" by (auto dest: relayBody_Synced)
    with body r show ?thesis by simp
  next
    case False
    with body have "relayLoop env k (p # ps) = relayLoop env k' ps"
      by (intro relayLoop_advance) auto
    with Cons show ?thesis by simp
  qed
qed

lemma arcGisBody_Some:
  "arcGisBody env k = (Inr (Some parsed), k') \<Longrightarrow> parsed \<noteq> []"
  by (auto simp: arcGisBody_def split: sum.splits if_splits prod.splits)

lemma fetchLiveCameras_fallthrough:
  "arcGisBody env 0 = (r, k) \<Longrightarrow> \<forall>parsed. r \<noteq> Inr (Some parsed) \<Longrightarrow>
     fetchLiveCameras env = relayLoop env k PROXIES"
  by (auto simp: fetchLiveCameras_def split: sum.splits option.splits)

text \<open>
  C1.  Whatever the surroundings do (a request that rejects through a network
  error or the timeout, a status that is not OK, a payload that cannot be decoded or
  parsed, a parse without records), \<open>fetchLiveCameras\<close> returns a sequence of
  records that is not empty.  Every exception of the two \<open>try\<close> blocks is a value
  \<open>Inl\<close> of \<open>arcGisBody\<close> and \<open>relayBody\<close>, which \<open>fetchLiveCameras\<close> and
  \<open>relayLoop\<close> absorb as the \<open>catch\<close> clauses do; the function is total in the
  platform.
\<close>

theorem fetchLiveCameras_nonempty: "fetchLiveCameras env \<noteq> []"
proof -
  obtain r k where body: "arcGisBody env 0 = (r, k)" by (cases "arcGisBody env 0")
  show ?thesis
  proof (cases "\<exists>parsed. r = Inr (Some parsed)")
    case True
    then obtain parsed where r: "r = Inr (Some parsed)" by blast
    with body have "parsed \<noteq> []" by (auto dest: arcGisBody_Some)
    with body r show ?thesis by (simp add: fetchLiveCameras_def)
  next
    case False
    with body have "fetchLiveCameras env = relayLoop env k PROXIES"
      by (intro fetchLiveCameras_fallthrough) auto
    then show ?thesis by (simp add: relayLoop_nonempty)
  qed
qed

theorem fetchLiveCameras_nonempty_witness:
  "fetchLiveCameras offline \<noteq> [] \<and> fetchLiveCameras (relayed htmlPage) \<noteq> [] \<and>
   fetchLiveCameras (relayed legacyXml) \<noteq> []"
  using fetchLiveCameras_nonempty [of offline]
    fetchLiveCameras_nonempty [of "relayed htmlPage"]
    fetchLiveCameras_nonempty [of "relayed legacyXml"]
  by simp

lemma relayLoop_all_fail:
  "\<forall>k proxy parsed. proxy \<in> set ps \<longrightarrow> fst (relayBody env k proxy) \<noteq> Inr (Synced parsed) \<Longrightarrow>
     relayLoop env k ps = FALLBACK_CAMERAS env"
proof (induction ps arbitrary: k)
  case Nil
  show ?case by simp
next
  case (Cons p ps)
  obtain r k' where body: "relayBody env k p = (r, k')" by (cases "relayBody env k p")
  have "\<forall>parsed. r \<noteq> Inr (Synced parsed)"
    using Cons.prems body by (metis fst_conv list.set_intros(1))
  with body have "relayLoop env k (p # ps) = relayLoop env k' ps"
    by (rule relayLoop_advance)
  moreover have "relayLoop env k' ps = FALLBACK_CAMERAS env"
    using Cons.prems by (intro Cons.IH) auto
  ultimately show ?case by simp
qed

text \<open>
  C3.  When the authoritative attempt does not return records and no relay of the
  pool returns records, \<open>fetchLiveCameras\<close> returns the static fallback set: exactly
  three records, with the identifiers FB-AKL-01, FB-AKL-02, FB-WLG-01 in this order.
\<close>

theorem fallback_when_all_fail:
  assumes "\<forall>parsed. fst (arcGisBody env 0) \<noteq> Inr (Some parsed)"
    and "\<forall>k proxy parsed. proxy \<in> set PROXIES \<longrightarrow>
           fst (relayBody env k proxy) \<noteq> Inr (Synced parsed)"
  shows "fetchLiveCameras env = FALLBACK_CAMERAS env \<and>
         map cam_id (fetchLiveCameras env) = [''FB-AKL-01'', ''FB-AKL-02'', ''FB-WLG-01'']"
proof -
  obtain r k where body: "arcGisBody env 0 = (r, k)" by (cases "arcGisBody env 0")
  with assms(1) have "\<forall>parsed. r \<noteq> Inr (Some parsed)" by simp
  with body have "fetchLiveCameras env = relayLoop env k PROXIES"
    by (rule fetchLiveCameras_fallthrough)
  with assms(2) have "fetchLiveCameras env = FALLBACK_CAMERAS env"
    by (simp add: relayLoop_all_fail)
  then show ?thesis by (simp add: FALLBACK_CAMERAS_def)
qed

theorem fallback_when_all_fail_witness:
  "fetchLiveCameras offline = FALLBACK_CAMERAS offline \<and>
   map cam_id (fetchLiveCameras offline) = [''FB-AKL-01'', ''FB-AKL-02'', ''FB-WLG-01'']"
proof -
  have a: "\<forall>parsed. fst (arcGisBody offline 0) \<noteq> Inr (Some parsed)"
    by (simp add: arcGisBody_def fetchWithTimeout_def offline_def)
  have b: "\<forall>k proxy parsed. proxy \<in> set PROXIES \<longrightarrow>
             fst (relayBody offline k proxy) \<noteq> Inr (Synced parsed)"
    by (simp add: relayBody_def fetchWithTimeout_def offline_def)
  show ?thesis using fallback_when_all_fail [OF a b] .
qed




section \<open>Where the records come from\<close>

lemma normalizeImageUrlAny_error: "normalizeImageUrlAny v = Inl e \<Longrightarrow> e = TypeError"
  by (auto simp: normalizeImageUrlAny_def split: if_splits jsval.splits)

lemma arcFeature_error: "arcFeature env k f = (Inl e, k') \<Longrightarrow> e = TypeError"
  by (auto simp: arcFeature_def Let_def split: if_splits sum.splits
        dest: normalizeImageUrlAny_error)

lemma arcFeature_throws:
  "nullish (get f ''geometry'') \<or> nullish (get (get f ''geometry'') ''coordinates'') \<Longrightarrow>
     fst (arcFeature env k f) = Inl TypeError"
  by (auto simp: arcFeature_def Let_def split: sum.splits dest: normalizeImageUrlAny_error)

lemma mapFeatures_throws:
  "f \<in> set fs \<Longrightarrow> \<forall>j. fst (arcFeature env j f) = Inl TypeError \<Longrightarrow>
     fst (mapFeatures env k fs) = Inl TypeError"
proof (induction fs arbitrary: k)
  case Nil
  then show ?case by simp
next
  case (Cons g gs)
  obtain r k' where g: "arcFeature env k g = (r, k')" by (cases "arcFeature env k g")
  show ?case
  proof (cases r)
    case (Inl e)
    with g have "e = TypeError" by (auto dest: arcFeature_error)
    with g Inl show ?thesis by simp
  next
    case (Inr c)
    with g Cons.prems have "f \<in> set gs" by (metis fst_conv set_ConsD sum.distinct(1))
    then have "fst (mapFeatures env k' gs) = Inl TypeError"
      using Cons.prems(2) by (rule Cons.IH)
    with g Inr show ?thesis by (auto split: prod.splits sum.splits)
  qed
qed

lemma parseArcGisJson_throws:
  assumes "get geoJson ''features'' = Arr fs" and "f \<in> set fs"
    and "nullish (get f ''geometry'') \<or> nullish (get (get f ''geometry'') ''coordinates'')"
  shows "fst (parseArcGisJson env k geoJson) = Inl TypeError"
proof -
  have "truthy geoJson" using assms(1) by (cases geoJson) auto
  moreover have "fst (mapFeatures env k fs) = Inl TypeError"
    using assms(2,3) by (intro mapFeatures_throws) (auto simp: arcFeature_throws)
  ultimately show ?thesis using assms(1) by (simp add: parseArcGisJson_def)
qed


lemma forEachNode_mem:
  "c \<in> set (fst (forEachNode env k nodes acc)) \<Longrightarrow>
     c \<in> set acc \<or> (\<exists>node j j'. node \<in> set nodes \<and> cameraNode env j node = (Some c, j'))"
proof (induction nodes arbitrary: k acc)
  case Nil
  then show ?case by simp
next
  case (Cons n ns)
  obtain r k' where n: "cameraNode env k n = (r, k')" by (cases "cameraNode env k n")
  show ?case
  proof (cases r)
    case None
    with n Cons.prems have "c \<in> set (fst (forEachNode env k' ns acc))" by simp
    from Cons.IH [OF this] show ?thesis by auto
  next
    case (Some d)
    with n Cons.prems have "c \<in> set (fst (forEachNode env k' ns (acc @ [d])))" by simp
    from Cons.IH [OF this] n Some show ?thesis by auto
  qed
qed

lemma parseTrafficXml_mem:
  "c \<in> set (fst (parseTrafficXml env k s)) \<Longrightarrow> \<exists>node j j'. cameraNode env j node = (Some c, j')"
  by (auto simp: parseTrafficXml_def Let_def split: if_splits dest!: forEachNode_mem)

lemma relayBody_Synced_parse:
  "relayBody env k proxy = (Inr (Synced parsed), k') \<Longrightarrow>
     \<exists>s. parseTrafficXml env k s = (parsed, k')"
  by (fastforce simp: relayBody_def split: sum.splits if_splits jsval.splits prod.splits)

lemma relayBody_mem:
  assumes "relayBody env k proxy = (Inr (Synced parsed), k')" and "c \<in> set parsed"
  shows "\<exists>node j j'. cameraNode env j node = (Some c, j')"
proof -
  from assms(1) obtain s where "parseTrafficXml env k s = (parsed, k')"
    by (auto dest: relayBody_Synced_parse)
  then have "parsed = fst (parseTrafficXml env k s)" by simp
  with assms(2) show ?thesis by (auto dest: parseTrafficXml_mem)
qed

lemma relayLoop_mem:
  "c \<in> set (relayLoop env k ps) \<Longrightarrow>
     c \<in> set (FALLBACK_CAMERAS env) \<or> (\<exists>node j j'. cameraNode env j node = (Some c, j'))"
proof (induction ps arbitrary: k)
  case Nil
  then show ?case by simp
next
  case (Cons p ps)
  obtain r k' where body: "relayBody env k p = (r, k')" by (cases "relayBody env k p")
  show ?case
  proof (cases "\<exists>parsed. r = Inr (Synced parsed)")
    case True
    then obtain parsed where r: "r = Inr (Synced parsed)" by blast
    with body Cons.prems have "c \<in> set parsed" by simp
    with body r show ?thesis by (auto dest: relayBody_mem)
  next
    case False
    with body have eq: "relayLoop env k (p # ps) = relayLoop env k' ps"
      by (intro relayLoop_advance) auto
    from Cons.prems have "c \<in> set (relayLoop env k' ps)" unfolding eq .
    then show ?thesis by (rule Cons.IH)
  qed
qed

lemma mapFeatures_mem:
  "mapFeatures env k fs = (Inr cs, k') \<Longrightarrow> c \<in> set cs \<Longrightarrow>
     \<exists>f j j'. f \<in> set fs \<and> arcFeature env j f = (Inr c, j')"
proof (induction fs arbitrary: k cs)
  case Nil
  then show ?case by simp
next
  case (Cons g gs)
  from Cons.prems(1) obtain d k1 ds where g: "arcFeature env k g = (Inr d, k1)"
    and rest: "mapFeatures env k1 gs = (Inr ds, k')" and cs: "cs = d # ds"
    by (auto split: prod.splits sum.splits)
  show ?case
  proof (cases "c = d")
    case True
    with g show ?thesis by auto
  next
    case False
    with cs Cons.prems(2) have "c \<in> set ds" by simp
    from Cons.IH [OF rest this] show ?thesis by auto
  qed
qed

lemma arcGisBody_mem:
  "arcGisBody env k = (Inr (Some parsed), k') \<Longrightarrow> c \<in> set parsed \<Longrightarrow>
     \<exists>f j j'. arcFeature env j f = (Inr c, j')"
proof -
  assume a: "arcGisBody env k = (Inr (Some parsed), k')" and c: "c \<in> set parsed"
  from a obtain data where p: "parseArcGisJson env k data = (Inr parsed, k')"
    by (auto simp: arcGisBody_def split: sum.splits if_splits prod.splits)
  from c have "parsed \<noteq> []" by auto
  with p obtain fs where m: "mapFeatures env k fs = (Inr parsed, k')"
    by (auto simp: parseArcGisJson_def split: if_splits jsval.splits)
  from mapFeatures_mem [OF m c] show ?thesis by blast
qed

text \<open>Every record that leaves the pipeline was built by one of the three sources.\<close>

lemma fetchLiveCameras_mem:
  assumes "c \<in> set (fetchLiveCameras env)"
  shows "(\<exists>f j j'. arcFeature env j f = (Inr c, j')) \<or>
         (\<exists>node j j'. cameraNode env j node = (Some c, j')) \<or>
         c \<in> set (FALLBACK_CAMERAS env)"
proof -
  obtain r k where body: "arcGisBody env 0 = (r, k)" by (cases "arcGisBody env 0")
  show ?thesis
  proof (cases "\<exists>parsed. r = Inr (Some parsed)")
    case True
    then obtain parsed where r: "r = Inr (Some parsed)" by blast
    with body assms have "c \<in> set parsed" by (simp add: fetchLiveCameras_def)
    with body r show ?thesis by (auto dest: arcGisBody_mem)
  next
    case False
    with body have "fetchLiveCameras env = relayLoop env k PROXIES"
      by (intro fetchLiveCameras_fallthrough) auto
    with assms show ?thesis by (auto dest: relayLoop_mem)
  qed
qed

lemma cameraNode_source:
  "cameraNode env k node = (Some c, k') \<Longrightarrow> source c = ''TrafficNZ REST v4''"
  by (auto simp: cameraNode_def Let_def split: if_splits)

lemma FALLBACK_source: "c \<in> set (FALLBACK_CAMERAS env) \<Longrightarrow> source c = ''Static Matrix Fallback''"
  by (auto simp: FALLBACK_CAMERAS_def)

lemma relayLoop_source:
  "c \<in> set (relayLoop env k ps) \<Longrightarrow> source c \<noteq> ''NZTA ArcGIS (Authoritative)''"
  by (auto dest!: relayLoop_mem dest: cameraNode_source FALLBACK_source)

text \<open>
  C10.  If some feature of the authoritative collection has no geometry, or a
  geometry without coordinates, then \<open>parseArcGisJson\<close> throws a \<open>TypeError\<close>; when
  this collection is what the authoritative endpoint delivers, the orchestrator
  continues with the relay pool exactly as after any other failure, and no record
  of its result comes from the authoritative parser, however many features of the
  collection were valid.
\<close>

theorem missing_geometry_discards_batch:
  assumes "get geoJson ''features'' = Arr fs" and "f \<in> set fs"
    and "nullish (get f ''geometry'') \<or> nullish (get (get f ''geometry'') ''coordinates'')"
  shows "fst (parseArcGisJson env k geoJson) = Inl TypeError \<and>
         (fetchWithTimeout env ARCGIS_ENDPOINT = Inr res \<and> resp_ok res \<and>
          resp_json res = Inr geoJson \<longrightarrow>
            fetchLiveCameras env = relayLoop env (snd (parseArcGisJson env 0 geoJson)) PROXIES \<and>
            (\<forall>c \<in> set (fetchLiveCameras env). source c \<noteq> ''NZTA ArcGIS (Authoritative)''))"
proof (intro conjI impI)
  show "fst (parseArcGisJson env k geoJson) = Inl TypeError"
    using assms by (rule parseArcGisJson_throws)
next
  assume res: "fetchWithTimeout env ARCGIS_ENDPOINT = Inr res \<and> resp_ok res \<and>
               resp_json res = Inr geoJson"
  have "fst (parseArcGisJson env 0 geoJson) = Inl TypeError"
    using assms by (rule parseArcGisJson_throws)
  then obtain k1 where k1: "parseArcGisJson env 0 geoJson = (Inl TypeError, k1)"
    by (cases "parseArcGisJson env 0 geoJson") auto
  with res have "arcGisBody env 0 = (Inl TypeError, k1)"
    by (simp add: arcGisBody_def)
  then have "arcGisBody env 0 = (Inl TypeError, snd (parseArcGisJson env 0 geoJson))"
    using k1 by simp
  then show eq: "fetchLiveCameras env =
      relayLoop env (snd (parseArcGisJson env 0 geoJson)) PROXIES"
    by (rule fetchLiveCameras_fallthrough) simp
  show "\<forall>c \<in> set (fetchLiveCameras env). source c \<noteq> ''NZTA ArcGIS (Authoritative)''"
    unfolding eq by (blast dest: relayLoop_source)
qed

theorem missing_geometry_discards_batch_witness:
  "fst (parseArcGisJson (authoritative brokenBatch) 0 brokenBatch) = Inl TypeError \<and>
   fetchLiveCameras (authoritative brokenBatch) = FALLBACK_CAMERAS (authoritative brokenBatch)"
proof -
  let ?f = "Obj [(''type'', Str ''Feature''), (''properties'', Obj [(''id'', Str ''13'')])]"
  let ?fs = "[feature [(''id'', Str ''12'')] [Num (Finite 174.7), Num (Finite (- 36.8))], ?f]"
  let ?res = "Response True 200 (Inr brokenBatch) (Inr [])"
  have a: "get brokenBatch ''features'' = Arr ?fs"
    by (simp add: brokenBatch_def featureCollection_def)
  have b: "?f \<in> set ?fs" by simp
  have c: "nullish (get ?f ''geometry'') \<or> nullish (get (get ?f ''geometry'') ''coordinates'')"
    by (simp add: nullish_def)
  have d: "fetchWithTimeout (authoritative brokenBatch) ARCGIS_ENDPOINT = Inr ?res \<and>
           resp_ok ?res \<and> resp_json ?res = Inr brokenBatch"
    by (simp add: fetchWithTimeout_def authoritative_def)
  have e: "snd (parseArcGisJson (authoritative brokenBatch) 0 brokenBatch) = 3"
    by code_simp
  have f: "relayLoop (authoritative brokenBatch) 3 PROXIES =
           FALLBACK_CAMERAS (authoritative brokenBatch)"
    by code_simp
  show ?thesis
    using missing_geometry_discards_batch [OF a b c, of "authoritative brokenBatch" 0 ?res] d e f
    by simp
qed

section \<open>The legacy parser\<close>

lemma pick_mem: "0 \<le> r \<Longrightarrow> r < 1 \<Longrightarrow> xs \<noteq> [] \<Longrightarrow> pick xs r \<in> set xs"
proof -
  assume r: "0 \<le> r" "r < 1" and xs: "xs \<noteq> []"
  have pos: "0 < real (length xs)" using xs by simp
  have "r * real (length xs) < real (length xs)"
    using r(2) pos by simp
  then have "\<lfloor>r * real (length xs)\<rfloor> < int (length xs)" by linarith
  moreover have "0 \<le> \<lfloor>r * real (length xs)\<rfloor>" using r(1) by simp
  ultimately have "nat \<lfloor>r * real (length xs)\<rfloor> < length xs" by linarith
  then show ?thesis by (simp add: pick_def)
qed

lemma status_Construction:
  "includes_str (orElse s ''Operational'') ''Construction'' = includes_str s ''Construction''"
  by (cases s) (simp_all add: orElse_def)

text \<open>
  C5.  For a legacy node that yields a record: if the status text of the node
  contains \<open>Construction\<close>, the severity of the record is medium, whatever the
  draws are; otherwise it is the entry of the candidate list
  \<open>[low, low, low, medium, medium, high]\<close> selected by the next draw, hence one of
  low, medium, high for draws in \<open>[0, 1)\<close>.
\<close>

theorem construction_forces_medium:
  assumes "cameraNode env k node = (Some c, k')"
  shows "status c = orElse (getVal node (Tag ''status'')) ''Operational'' \<and>
         (includes_str (getVal node (Tag ''status'')) ''Construction'' \<longrightarrow> severity c = Medium) \<and>
         (\<not> includes_str (getVal node (Tag ''status'')) ''Construction'' \<longrightarrow>
            severity c =
              pick severities (random env (if getVal node (Tag ''id'') \<noteq> [] then k else k + 1)) \<and>
            (unitDraws env \<longrightarrow> severity c \<in> {Low, Medium, High}))"
proof -
  let ?i = "if getVal node (Tag ''id'') \<noteq> [] then k else k + 1"
  have st: "status c = orElse (getVal node (Tag ''status'')) ''Operational''"
    using assms by (auto simp: cameraNode_def Let_def split: if_splits)
  have sev: "severity c =
      (if includes_str (orElse (getVal node (Tag ''status'')) ''Operational'') ''Construction''
       then Medium else pick severities (random env ?i))"
    using assms by (auto simp: cameraNode_def Let_def split: if_splits)
  have "pick severities (random env ?i) \<in> {Low, Medium, High}" if "unitDraws env"
  proof -
    from that have "0 \<le> random env ?i" "random env ?i < 1" by (simp_all add: unitDraws_def)
    then have "pick severities (random env ?i) \<in> set severities"
      by (rule pick_mem) (simp add: severities_def)
    then show ?thesis by (auto simp: severities_def)
  qed
  with st sev show ?thesis by (simp add: status_Construction)
qed

theorem construction_forces_medium_witness:
  "includes_str (getVal constructionNode (Tag ''status'')) ''Construction'' \<and>
   severity (the (fst (cameraNode offline 0 constructionNode))) = Medium \<and>
   \<not> includes_str (getVal plainNode (Tag ''status'')) ''Construction'' \<and>
   unitDraws offline \<and>
   severity (the (fst (cameraNode offline 0 plainNode))) = Low"
proof -
  have a: "cameraNode offline 0 constructionNode =
           (Some (the (fst (cameraNode offline 0 constructionNode))),
            snd (cameraNode offline 0 constructionNode))"
    by code_simp
  have b: "cameraNode offline 0 plainNode =
           (Some (the (fst (cameraNode offline 0 plainNode))),
            snd (cameraNode offline 0 plainNode))"
    by code_simp
  have c: "includes_str (getVal constructionNode (Tag ''status'')) ''Construction''"
    by code_simp
  have d: "\<not> includes_str (getVal plainNode (Tag ''status'')) ''Construction''"
    by code_simp
  have e: "unitDraws offline" by (simp add: unitDraws_def offline_def)
  have f: "pick severities (random offline (if getVal plainNode (Tag ''id'') \<noteq> [] then 0 else 0 + 1)) = Low"
    by code_simp
  show ?thesis
    using construction_forces_medium [OF a] construction_forces_medium [OF b] c d e f
    by simp
qed

section \<open>Identifiers\<close>

lemma cameraNode_id:
  "cameraNode env k node = (Some c, k') \<Longrightarrow>
     cam_id c = (if getVal node (Tag ''id'') \<noteq> [] then getVal node (Tag ''id'')
                 else ''node-'' @ substr (toString36 env (random env k)) 2 5)"
  by (auto simp: cameraNode_def Let_def split: if_splits)

lemma arcFeature_id:
  "arcFeature env k f = (Inr c, k') \<Longrightarrow>
     cam_id c = ''arcgis-'' @ toStringJs (numberToString env)
                  (orJs (get (get f ''properties'') ''id'') (get (get f ''properties'') ''ObjectId''))"
  by (auto simp: arcFeature_def Let_def split: if_splits sum.splits)

lemma FALLBACK_id: "c \<in> set (FALLBACK_CAMERAS env) \<Longrightarrow> cam_id c \<noteq> []"
  by (auto simp: FALLBACK_CAMERAS_def)

text \<open>
  C8, as the code has it.  Every record that leaves the pipeline has an identifier
  that is not empty.  An identifier the legacy parser synthesises is \<open>node-\<close>
  followed by at most five characters of the base 36 text of one draw, and the
  authoritative parser prefixes \<open>arcgis-\<close> to the text of whatever the feature
  carries (\<open>undefined\<close> when it carries nothing); nothing makes two of them differ.
\<close>

theorem identifiers_nonempty:
  "(\<forall>c \<in> set (fetchLiveCameras env). cam_id c \<noteq> []) \<and>
   (\<forall>k node c k'. cameraNode env k node = (Some c, k') \<longrightarrow>
      cam_id c = (if getVal node (Tag ''id'') \<noteq> [] then getVal node (Tag ''id'')
                  else ''node-'' @ substr (toString36 env (random env k)) 2 5)) \<and>
   (\<forall>k f c k'. arcFeature env k f = (Inr c, k') \<longrightarrow>
      cam_id c = ''arcgis-'' @ toStringJs (numberToString env)
                   (orJs (get (get f ''properties'') ''id'')
                      (get (get f ''properties'') ''ObjectId'')))"
proof (intro conjI ballI allI impI)
  fix c assume "c \<in> set (fetchLiveCameras env)"
  then consider f j j' where "arcFeature env j f = (Inr c, j')"
    | node j j' where "cameraNode env j node = (Some c, j')"
    | "c \<in> set (FALLBACK_CAMERAS env)"
    by (auto dest: fetchLiveCameras_mem)
  then show "cam_id c \<noteq> []"
  proof cases
    case 1
    then show ?thesis by (simp add: arcFeature_id)
  next
    case 2
    then show ?thesis by (simp add: cameraNode_id)
  next
    case 3
    then show ?thesis by (rule FALLBACK_id)
  qed
qed (simp_all add: cameraNode_id arcFeature_id)

theorem identifiers_nonempty_witness:
  "[] \<notin> set (map cam_id (fetchLiveCameras (relayed legacyXml))) \<and>
   cam_id (the (fst (cameraNode offline 0 plainNode))) = ''node-9''"
proof -
  have b: "cameraNode offline 0 plainNode =
           (Some (the (fst (cameraNode offline 0 plainNode))),
            snd (cameraNode offline 0 plainNode))"
    by code_simp
  have c: "(if getVal plainNode (Tag ''id'') \<noteq> [] then getVal plainNode (Tag ''id'')
            else ''node-'' @ substr (toString36 offline (random offline 0)) 2 5) = ''node-9''"
    by code_simp
  from identifiers_nonempty [of "relayed legacyXml"]
  have "[] \<notin> set (map cam_id (fetchLiveCameras (relayed legacyXml)))" by auto
  moreover from identifiers_nonempty [of offline] b c
  have "cam_id (the (fst (cameraNode offline 0 plainNode))) = ''node-9''" by metis
  ultimately show ?thesis by simp
qed

text \<open>
  The claim C8 as stated fails: the second and third camera of the sample document
  carry no identifier and the two draws give the same suffix, and the two
  authoritative features without \<open>id\<close> and \<open>ObjectId\<close> both become
  \<open>arcgis-undefined\<close>, whatever the draws are.
\<close>

theorem identifiers_collide:
  "map cam_id (fst (parseTrafficXml offline 0 legacyXml)) = [''101'', ''node-9'', ''node-9''] \<and>
   \<not> distinct (map cam_id (fst (parseTrafficXml offline 0 legacyXml))) \<and>
   map cam_id (fetchLiveCameras (authoritative zeroBatch)) =
     [''arcgis-undefined'', ''arcgis-undefined''] \<and>
   \<not> distinct (map cam_id (fetchLiveCameras (authoritative zeroBatch)))"
  by code_simp

section \<open>Coordinates\<close>

lemma cameraNode_coordinates:
  "cameraNode env k node = (Some c, k') \<Longrightarrow>
     \<exists>lat lng. latitude c = Num lat \<and> longitude c = Num lng \<and> truthyNum lat \<and> truthyNum lng"
  by (auto simp: cameraNode_def Let_def split: if_splits)

lemma FALLBACK_coordinates:
  "c \<in> set (FALLBACK_CAMERAS env) \<Longrightarrow>
     \<exists>lat lng. latitude c = Num lat \<and> longitude c = Num lng \<and> truthyNum lat \<and> truthyNum lng"
  by (auto simp: FALLBACK_CAMERAS_def truthyNum_def)

lemma relayLoop_coordinates:
  "c \<in> set (relayLoop env k ps) \<Longrightarrow>
     \<exists>lat lng. latitude c = Num lat \<and> longitude c = Num lng \<and> truthyNum lat \<and> truthyNum lng"
  by (blast dest: relayLoop_mem cameraNode_coordinates FALLBACK_coordinates)

text \<open>
  C2.  The legacy parser and the fallback set keep the invariant (the three lemmas
  above), the authoritative parser does not: it copies \<open>coords[1]\<close> and \<open>coords[0]\<close>
  unchecked.  A feature at \<open>[0, 0]\<close> is emitted with latitude and longitude zero,
  and a feature with an empty coordinate array with both \<open>undefined\<close>.
\<close>

theorem arcgis_coordinates_unchecked:
  "map (\<lambda>c. (latitude c, longitude c)) (fetchLiveCameras (authoritative zeroBatch)) =
     [(Num (Finite 0), Num (Finite 0)), (Undefined, Undefined)]"
  by code_simp

section \<open>Image URLs\<close>

lemma replace_absent: "\<not> includes_str s p \<Longrightarrow> replace s p r = s"
  by (induction s) auto

lemma includes_pattern_prefix: "includes_str s (p @ q) \<Longrightarrow> includes_str s p"
  by (induction s) (auto dest: append_prefixD)

lemma replace_length:
  "includes_str s p \<Longrightarrow> length (replace s p r) + length p = length s + length r"
proof (induction s)
  case Nil
  then show ?case by simp
next
  case (Cons c cs)
  show ?case
  proof (cases "prefix p (c # cs)")
    case True
    then have "length p \<le> length (c # cs)" by (rule prefix_length_le)
    with True show ?thesis by simp
  next
    case False
    with Cons show ?thesis by simp
  qed
qed

lemma replace_length_le:
  "length p \<le> length r \<Longrightarrow> length s \<le> length (replace s p r)"
  using replace_length [of s p r] replace_absent [of s p r] by (cases "includes_str s p") auto

lemma digitsDotJpg_head: "digitsDotJpg (c # t) \<Longrightarrow> isDigit c"
  by (auto simp: digitsDotJpg_def Let_def take_Cons' split: if_splits)

lemma normalize_keeps_http:
  assumes "startsWith v ''http''"
  shows "normalizeImageUrl v =
           replace
             (replace (if includes_str v ''trafficnz.info'' then v
                       else replace v ''http://'' ''https://'')
                ''http://www.trafficnz.info'' ''https://www.trafficnz.info'')
             ''http://trafficnz.info'' ''https://www.trafficnz.info''"
proof -
  from assms obtain t where v: "v = ''http'' @ t" by (auto simp: startsWith_def prefix_def)
  have "\<not> digitsDotJpg v" unfolding v by (auto dest: digitsDotJpg_head simp: isDigit_def)
  moreover have "\<not> startsWith v ''/''" unfolding v by (simp add: startsWith_def)
  moreover have "v \<noteq> []" unfolding v by simp
  ultimately show ?thesis using assms by (simp add: normalizeImageUrl_def)
qed

lemma replace_keeps_http:
  assumes "prefix ''http'' s" and "prefix ''http'' p" and "prefix ''http'' r"
  shows "prefix ''http'' (replace s p r)"
proof -
  from assms obtain t q r' where "s = ''http'' @ t" "p = ''http'' @ q" "r = ''http'' @ r'"
    by (auto simp: prefix_def)
  then show ?thesis by simp
qed

lemma replace_keeps_https:
  assumes "prefix ''https://'' s" and "prefix ''http:'' p"
  shows "prefix ''https://'' (replace s p r)"
proof -
  from assms obtain t q where "s = ''https://'' @ t" "p = ''http:'' @ q"
    by (auto simp: prefix_def)
  then show ?thesis by simp
qed

lemma final_keeps_https:
  "prefix ''https://'' s \<Longrightarrow>
     prefix ''https://''
       (replace (replace s ''http://www.trafficnz.info'' ''https://www.trafficnz.info'')
          ''http://trafficnz.info'' ''https://www.trafficnz.info'')"
  by (intro replace_keeps_https) simp_all

lemma normalize_http_prefix: "u \<noteq> [] \<Longrightarrow> startsWith (normalizeImageUrl u) ''http''"
proof -
  assume u: "u \<noteq> []"
  let ?fin = "\<lambda>s. replace (replace s ''http://www.trafficnz.info'' ''https://www.trafficnz.info'')
                     ''http://trafficnz.info'' ''https://www.trafficnz.info''"
  have fin: "prefix ''http'' (?fin s)" if "prefix ''http'' s" for s
    using that by (intro replace_keeps_http) simp_all
  show ?thesis
  proof (cases "startsWith u ''http''")
    case True
    then have p: "prefix ''http'' u" by (simp add: startsWith_def)
    then have "prefix ''http'' (replace u ''http://'' ''https://'')"
      by (intro replace_keeps_http) simp_all
    with p show ?thesis
      unfolding normalize_keeps_http [OF True] startsWith_def by (auto intro: fin)
  next
    case False
    then have "normalizeImageUrl u = ?fin (BASE_TRAFFIC_URL @ u) \<or>
               normalizeImageUrl u = ?fin (BASE_TRAFFIC_URL @ ''/camera/images/'' @ u)"
      using u by (simp add: normalizeImageUrl_def)
    moreover have "prefix ''http'' (BASE_TRAFFIC_URL @ w)" for w
      by (simp add: BASE_TRAFFIC_URL_def)
    ultimately show ?thesis
      unfolding startsWith_def by (metis fin)
  qed
qed

lemma normalize_relative:
  assumes "u \<noteq> []" and "\<not> startsWith u ''http''"
  shows "startsWith (normalizeImageUrl u) ''https://''"
proof -
  let ?fin = "\<lambda>s. replace (replace s ''http://www.trafficnz.info'' ''https://www.trafficnz.info'')
                     ''http://trafficnz.info'' ''https://www.trafficnz.info''"
  from assms have "normalizeImageUrl u = ?fin (BASE_TRAFFIC_URL @ u) \<or>
                   normalizeImageUrl u = ?fin (BASE_TRAFFIC_URL @ ''/camera/images/'' @ u)"
    by (simp add: normalizeImageUrl_def)
  moreover have "prefix ''https://'' (BASE_TRAFFIC_URL @ w)" for w
    by (simp add: BASE_TRAFFIC_URL_def)
  ultimately show ?thesis
    unfolding startsWith_def by (metis final_keeps_https)
qed

lemma normalize_https:
  assumes "startsWith u ''https://''"
  shows "startsWith (normalizeImageUrl u) ''https://''"
proof -
  from assms have p: "prefix ''https://'' u" by (simp add: startsWith_def)
  then have h: "startsWith u ''http''" by (auto simp: startsWith_def prefix_def)
  from p have "prefix ''https://'' (replace u ''http://'' ''https://'')"
    by (intro replace_keeps_https) simp_all
  with p show ?thesis
    unfolding normalize_keeps_http [OF h] startsWith_def by (auto intro: final_keeps_https)
qed

lemma normalize_http_foreign:
  assumes "startsWith u ''http://''" and "\<not> includes_str u ''trafficnz.info''"
  shows "startsWith (normalizeImageUrl u) ''https://''"
proof -
  from assms(1) obtain t where u: "u = ''http://'' @ t" by (auto simp: startsWith_def prefix_def)
  then have h: "startsWith u ''http''" by (simp add: startsWith_def)
  have "prefix ''https://'' (replace u ''http://'' ''https://'')" unfolding u by simp
  with assms(2) show ?thesis
    unfolding normalize_keeps_http [OF h] startsWith_def by (auto intro: final_keeps_https)
qed

lemma normalize_http_www:
  assumes "startsWith u ''http://www.trafficnz.info''"
  shows "startsWith (normalizeImageUrl u) ''https://''"
proof -
  from assms obtain t where u: "u = ''http://www.trafficnz.info'' @ t"
    by (auto simp: startsWith_def prefix_def)
  then have h: "startsWith u ''http''" by (simp add: startsWith_def)
  have i: "includes_str u ''trafficnz.info''" unfolding u by simp
  show ?thesis
    unfolding normalize_keeps_http [OF h] startsWith_def using i unfolding u by simp
qed

lemma normalize_http_bare:
  assumes "startsWith u ''http://trafficnz.info''"
  shows "startsWith (normalizeImageUrl u) ''https://''"
proof -
  from assms obtain t where u: "u = ''http://trafficnz.info'' @ t"
    by (auto simp: startsWith_def prefix_def)
  then have h: "startsWith u ''http''" by (simp add: startsWith_def)
  have i: "includes_str u ''trafficnz.info''" unfolding u by simp
  show ?thesis
    unfolding normalize_keeps_http [OF h] startsWith_def using i unfolding u by simp
qed

lemma cameraNode_imageUrl:
  "cameraNode env k node = (Some c, k') \<Longrightarrow>
     imageUrl c = normalizeImageUrl
                    (orElse (getVal node (Tag ''imageUrl'')) (getVal node (Tag ''url'')))"
  by (auto simp: cameraNode_def Let_def split: if_splits)

lemma arcFeature_imageUrl:
  "arcFeature env k f = (Inr c, k') \<Longrightarrow>
     normalizeImageUrlAny (orJs (get (get f ''properties'') ''imageurl'')
                             (get (get f ''properties'') ''thumburl'')) = Inr (imageUrl c)"
  by (auto simp: arcFeature_def Let_def split: if_splits sum.splits)

text \<open>
  C7, as the code has it.  Both parsers store \<open>normalizeImageUrl\<close> of the upstream
  reference.  An empty or missing reference gives the empty string.  Any other
  reference gives a string that starts with \<open>http\<close>, and one that starts with
  \<open>https://\<close> when the reference is relative (does not start with \<open>http\<close>), starts
  with \<open>https://\<close> already, or starts with \<open>http://\<close> and either does not mention
  \<open>trafficnz.info\<close> or starts with one of the two host prefixes that the final pass
  rewrites.
\<close>

theorem image_url_form:
  "normalizeImageUrl [] = [] \<and>
   (u \<noteq> [] \<longrightarrow> startsWith (normalizeImageUrl u) ''http'') \<and>
   (u \<noteq> [] \<and>
    (\<not> startsWith u ''http'' \<or> startsWith u ''https://'' \<or>
     startsWith u ''http://'' \<and>
       (\<not> includes_str u ''trafficnz.info'' \<or> startsWith u ''http://www.trafficnz.info'' \<or>
        startsWith u ''http://trafficnz.info'')) \<longrightarrow>
      startsWith (normalizeImageUrl u) ''https://'') \<and>
   (\<forall>k node c k'. cameraNode env k node = (Some c, k') \<longrightarrow>
      imageUrl c = normalizeImageUrl
                     (orElse (getVal node (Tag ''imageUrl'')) (getVal node (Tag ''url'')))) \<and>
   (\<forall>k f c k'. arcFeature env k f = (Inr c, k') \<longrightarrow>
      normalizeImageUrlAny (orJs (get (get f ''properties'') ''imageurl'')
                              (get (get f ''properties'') ''thumburl'')) = Inr (imageUrl c))"
proof (intro conjI allI impI)
  show "normalizeImageUrl [] = []" by (simp add: normalizeImageUrl_def)
next
  assume "u \<noteq> []"
  then show "startsWith (normalizeImageUrl u) ''http''" by (rule normalize_http_prefix)
next
  assume "u \<noteq> [] \<and>
    (\<not> startsWith u ''http'' \<or> startsWith u ''https://'' \<or>
     startsWith u ''http://'' \<and>
       (\<not> includes_str u ''trafficnz.info'' \<or> startsWith u ''http://www.trafficnz.info'' \<or>
        startsWith u ''http://trafficnz.info''))"
  then show "startsWith (normalizeImageUrl u) ''https://''"
    using normalize_relative normalize_https normalize_http_foreign normalize_http_www
      normalize_http_bare by blast
qed (simp_all add: cameraNode_imageUrl arcFeature_imageUrl)

theorem image_url_form_witness:
  "normalizeImageUrl ''20.jpg'' = ''https://trafficnz.info/camera/images/20.jpg'' \<and>
   startsWith (normalizeImageUrl ''20.jpg'') ''https://'' \<and>
   startsWith (normalizeImageUrl ''http://www.trafficnz.info/camera/images/20.jpg'') ''https://'' \<and>
   imageUrl (the (fst (cameraNode offline 0 constructionNode))) = normalizeImageUrl ''20.jpg''"
proof -
  have a: "''20.jpg'' \<noteq> [] \<and>
    (\<not> startsWith ''20.jpg'' ''http'' \<or> startsWith ''20.jpg'' ''https://'' \<or>
     startsWith ''20.jpg'' ''http://'' \<and>
       (\<not> includes_str ''20.jpg'' ''trafficnz.info'' \<or>
        startsWith ''20.jpg'' ''http://www.trafficnz.info'' \<or>
        startsWith ''20.jpg'' ''http://trafficnz.info''))"
    by (simp add: startsWith_def)
  let ?w = "''http://www.trafficnz.info/camera/images/20.jpg''"
  have b: "?w \<noteq> [] \<and>
    (\<not> startsWith ?w ''http'' \<or> startsWith ?w ''https://'' \<or>
     startsWith ?w ''http://'' \<and>
       (\<not> includes_str ?w ''trafficnz.info'' \<or>
        startsWith ?w ''http://www.trafficnz.info'' \<or>
        startsWith ?w ''http://trafficnz.info''))"
    by (simp add: startsWith_def)
  have c: "cameraNode offline 0 constructionNode =
           (Some (the (fst (cameraNode offline 0 constructionNode))),
            snd (cameraNode offline 0 constructionNode))"
    by code_simp
  have d: "orElse (getVal constructionNode (Tag ''imageUrl''))
             (getVal constructionNode (Tag ''url'')) = ''20.jpg''"
    by code_simp
  have e: "normalizeImageUrl ''20.jpg'' = ''https://trafficnz.info/camera/images/20.jpg''"
    by code_simp
  from image_url_form [of "''20.jpg''" offline] a
  have 1: "startsWith (normalizeImageUrl ''20.jpg'') ''https://''" by blast
  from image_url_form [of ?w offline] b
  have 2: "startsWith (normalizeImageUrl ?w) ''https://''" by blast
  from image_url_form [of "''20.jpg''" offline] c d
  have 3: "imageUrl (the (fst (cameraNode offline 0 constructionNode))) =
           normalizeImageUrl ''20.jpg''" by metis
  from e 1 2 3 show ?thesis by simp
qed

text \<open>
  The claim C7 as stated fails: the second and third camera of the sample document
  carry no image reference and are emitted with an empty image URL, and so are the
  authoritative features without \<open>imageurl\<close> and \<open>thumburl\<close>.
\<close>

theorem image_url_not_always_https:
  "map imageUrl (fst (parseTrafficXml offline 0 legacyXml)) =
     [''https://trafficnz.info/camera/images/20.jpg'', [], []] \<and>
   \<not> (\<forall>c \<in> set (fst (parseTrafficXml offline 0 legacyXml)).
         startsWith (imageUrl c) ''https://'') \<and>
   map imageUrl (fetchLiveCameras (authoritative zeroBatch)) = [[], []] \<and>
   normalizeImageUrl [] = []"
  by code_simp

lemma normalize_fixed_point:
  "normalizeImageUrl (normalizeImageUrl u) = normalizeImageUrl u \<longleftrightarrow>
     (includes_str (normalizeImageUrl u) ''trafficnz.info'' \<or>
      \<not> includes_str (normalizeImageUrl u) ''http://'') \<and>
     \<not> includes_str (normalizeImageUrl u) ''http://www.trafficnz.info'' \<and>
     \<not> includes_str (normalizeImageUrl u) ''http://trafficnz.info''"
proof (cases "u = []")
  case True
  then show ?thesis by (simp add: normalizeImageUrl_def)
next
  case False
  define v where "v = normalizeImageUrl u"
  define a where
    "a = (if includes_str v ''trafficnz.info'' then v else replace v ''http://'' ''https://'')"
  define b where "b = replace a ''http://www.trafficnz.info'' ''https://www.trafficnz.info''"
  have h: "startsWith v ''http''" unfolding v_def using False by (rule normalize_http_prefix)
  have n: "normalizeImageUrl v = replace b ''http://trafficnz.info'' ''https://www.trafficnz.info''"
    unfolding b_def a_def by (rule normalize_keeps_http [OF h])
  have va: "length v \<le> length a" unfolding a_def by (simp add: replace_length_le)
  have ab: "length a \<le> length b" unfolding b_def by (simp add: replace_length_le)
  have bn: "length b \<le> length (normalizeImageUrl v)" unfolding n by (simp add: replace_length_le)
  have "normalizeImageUrl v = v \<longleftrightarrow>
     (includes_str v ''trafficnz.info'' \<or> \<not> includes_str v ''http://'') \<and>
     \<not> includes_str v ''http://www.trafficnz.info'' \<and>
     \<not> includes_str v ''http://trafficnz.info''"
  proof
    assume fixed: "normalizeImageUrl v = v"
    with va ab bn have la: "length a = length v" and lb: "length b = length a"
      and ln: "length (replace b ''http://trafficnz.info'' ''https://www.trafficnz.info'') = length b"
      unfolding n by simp_all
    have 1: "includes_str v ''trafficnz.info'' \<or> \<not> includes_str v ''http://''"
    proof (rule ccontr)
      assume "\<not> ?thesis"
      then have "a = replace v ''http://'' ''https://''" and "includes_str v ''http://''"
        by (simp_all add: a_def)
      then have "length a + length ''http://'' = length v + length ''https://''"
        by (simp only: replace_length)
      with la show False by simp
    qed
    then have av: "a = v" by (auto simp: a_def replace_absent)
    have 2: "\<not> includes_str v ''http://www.trafficnz.info''"
    proof
      assume "includes_str v ''http://www.trafficnz.info''"
      then have "length b + length ''http://www.trafficnz.info'' =
                 length a + length ''https://www.trafficnz.info''"
        unfolding b_def av by (rule replace_length)
      with lb show False by simp
    qed
    then have bv: "b = v" by (simp add: b_def av replace_absent)
    have 3: "\<not> includes_str v ''http://trafficnz.info''"
    proof
      assume "includes_str v ''http://trafficnz.info''"
      then have "length (replace b ''http://trafficnz.info'' ''https://www.trafficnz.info'') +
                 length ''http://trafficnz.info'' = length b + length ''https://www.trafficnz.info''"
        unfolding bv by (rule replace_length)
      with ln show False by simp
    qed
    from 1 2 3 show "(includes_str v ''trafficnz.info'' \<or> \<not> includes_str v ''http://'') \<and>
     \<not> includes_str v ''http://www.trafficnz.info'' \<and>
     \<not> includes_str v ''http://trafficnz.info''" by simp
  next
    assume c: "(includes_str v ''trafficnz.info'' \<or> \<not> includes_str v ''http://'') \<and>
     \<not> includes_str v ''http://www.trafficnz.info'' \<and>
     \<not> includes_str v ''http://trafficnz.info''"
    then have "a = v" by (auto simp: a_def replace_absent)
    with c have "b = v" by (simp add: b_def replace_absent)
    with c show "normalizeImageUrl v = v" by (simp add: n replace_absent)
  qed
  then show ?thesis unfolding v_def .
qed

text \<open>
  C6, as the code has it.  Normalising a normalised URL \<open>v\<close> gives \<open>v\<close> again
  exactly when none of the three rewrites still applies to \<open>v\<close>: \<open>v\<close> contains
  neither \<open>http://www.trafficnz.info\<close> nor \<open>http://trafficnz.info\<close>, and contains no
  \<open>http://\<close> at all unless it mentions \<open>trafficnz.info\<close>.  In particular a
  normalised URL without any \<open>http://\<close> is a fixed point.
\<close>

theorem normalize_idempotent_iff:
  "(normalizeImageUrl (normalizeImageUrl u) = normalizeImageUrl u \<longleftrightarrow>
      (includes_str (normalizeImageUrl u) ''trafficnz.info'' \<or>
       \<not> includes_str (normalizeImageUrl u) ''http://'') \<and>
      \<not> includes_str (normalizeImageUrl u) ''http://www.trafficnz.info'' \<and>
      \<not> includes_str (normalizeImageUrl u) ''http://trafficnz.info'') \<and>
   (\<not> includes_str (normalizeImageUrl u) ''http://'' \<longrightarrow>
      normalizeImageUrl (normalizeImageUrl u) = normalizeImageUrl u)"
proof -
  have "\<not> includes_str v ''http://www.trafficnz.info''"
    and "\<not> includes_str v ''http://trafficnz.info''"
    if "\<not> includes_str v ''http://''" for v
    using that includes_pattern_prefix [of v "''http://''" "''www.trafficnz.info''"]
      includes_pattern_prefix [of v "''http://''" "''trafficnz.info''"]
    by auto
  then show ?thesis using normalize_fixed_point [of u] by blast
qed

theorem normalize_idempotent_iff_witness:
  "normalizeImageUrl (normalizeImageUrl ''20.jpg'') = normalizeImageUrl ''20.jpg'' \<and>
   normalizeImageUrl (normalizeImageUrl ''http://example.com/a.jpg'') =
     normalizeImageUrl ''http://example.com/a.jpg'' \<and>
   normalizeImageUrl ''http://example.com/a.jpg'' = ''https://example.com/a.jpg''"
proof -
  have a: "(includes_str (normalizeImageUrl ''20.jpg'') ''trafficnz.info'' \<or>
      \<not> includes_str (normalizeImageUrl ''20.jpg'') ''http://'') \<and>
     \<not> includes_str (normalizeImageUrl ''20.jpg'') ''http://www.trafficnz.info'' \<and>
     \<not> includes_str (normalizeImageUrl ''20.jpg'') ''http://trafficnz.info''"
    by code_simp
  let ?e = "''http://example.com/a.jpg''"
  have b: "(includes_str (normalizeImageUrl ?e) ''trafficnz.info'' \<or>
      \<not> includes_str (normalizeImageUrl ?e) ''http://'') \<and>
     \<not> includes_str (normalizeImageUrl ?e) ''http://www.trafficnz.info'' \<and>
     \<not> includes_str (normalizeImageUrl ?e) ''http://trafficnz.info''"
    by code_simp
  have c: "normalizeImageUrl ?e = ''https://example.com/a.jpg''" by code_simp
  from normalize_idempotent_iff [of "''20.jpg''"] a
  have 1: "normalizeImageUrl (normalizeImageUrl ''20.jpg'') = normalizeImageUrl ''20.jpg''"
    by blast
  from normalize_idempotent_iff [of ?e] b
  have 2: "normalizeImageUrl (normalizeImageUrl ?e) = normalizeImageUrl ?e" by blast
  from 1 2 c show ?thesis by simp
qed

text \<open>
  The claim C6 as stated fails: every rewrite replaces the first occurrence of its
  pattern only, so a URL with a second \<open>http://\<close> changes again on the second pass.
\<close>

theorem normalize_not_idempotent:
  "normalizeImageUrl ''http://a/http://b'' = ''https://a/http://b'' \<and>
   normalizeImageUrl ''https://a/http://b'' = ''https://a/https://b'' \<and>
   normalizeImageUrl (normalizeImageUrl ''http://a/http://b'') \<noteq>
     normalizeImageUrl ''http://a/http://b''"
  by code_simp

end
